theory Spec2Isabelle
  imports Complex_Main
begin

section \<open>Cells, arrays and errors\<close>

text \<open>
  Modelled from the spec: the \<^verbatim>\<open>Grid\<close> enumeration of \<^verbatim>\<open>tableturf/model/grid.py\<close>, which
  is imported by every source file but is not part of the sources at hand. The spec gives
  its alphabet; the numeric \<^verbatim>\<open>.value\<close> of a member is never needed, cells are compared by
  member.
\<close>

datatype Grid = Empty | Wall | MyInk | MySpecial | HisInk | HisSpecial

text \<open>The only exception the modelled code can raise is Python's \<^verbatim>\<open>IndexError\<close>.\<close>

datatype error = IndexError

text \<open>\<^verbatim>\<open>logger.warn(msg)\<close> appends to a log; the log is returned next to the result.\<close>

datatype log = Warn string

text \<open>
  A two-dimensional \<^verbatim>\<open>np.ndarray\<close> is a list of rows. The only arrays with a zero
  dimension that occur are the \<open>(0, 0)\<close> result of trimming an all-empty grid, written
  \<open>[]\<close>, and inputs without a first cell, on which \<^verbatim>\<open>grid[0][0]\<close> raises.
\<close>

definition shape :: "'a list list \<Rightarrow> nat \<times> nat" where
  "shape m = (length m, if m = [] then 0 else length (hd m))"

definition rect :: "'a list list \<Rightarrow> bool" where
  "rect m = list_all (\<lambda>r. length r = snd (shape m)) m"

text \<open>\<^verbatim>\<open>np.any(a, axis=1)\<close> (one flag per row) and \<^verbatim>\<open>np.any(a, axis=0)\<close> (one per column).\<close>

definition any_axis1 :: "bool list list \<Rightarrow> bool list" where
  "any_axis1 a = map (list_ex id) a"

definition any_axis0 :: "bool list list \<Rightarrow> bool list" where
  "any_axis0 a = map (\<lambda>j. list_ex (\<lambda>r. r ! j) a) [0..<snd (shape a)]"

text \<open>Indexing with a boolean mask, \<^verbatim>\<open>xs[mask]\<close>: the entries whose flag is set, in order.\<close>

definition mask_select :: "bool list \<Rightarrow> 'a list \<Rightarrow> 'a list" where
  "mask_select flags xs = map snd (filter fst (zip flags xs))"

text \<open>\<^verbatim>\<open>np.argwhere(cond)\<close>: the indices where the condition holds, in row-major order.\<close>

definition argwhere :: "('a \<Rightarrow> bool) \<Rightarrow> 'a list list \<Rightarrow> (int \<times> int) list" where
  "argwhere P m =
     concat (map (\<lambda>i. map (\<lambda>j. (int i, int j))
                          (filter (\<lambda>j. P (m ! i ! j)) [0..<length (m ! i)]))
                 [0..<length m])"

text \<open>
  \<^verbatim>\<open>np.rot90(m, k)\<close> as numpy writes it: \<open>k\<close> is reduced modulo 4; one turn is the
  transpose of the array flipped along axis 1, two turns flip both axes, three turns flip
  the transpose along axis 1.
\<close>

definition transpose_m :: "'a list list \<Rightarrow> 'a list list" where
  "transpose_m m = map (\<lambda>j. map (\<lambda>r. r ! j) m) [0..<snd (shape m)]"

definition rot90 :: "'a list list \<Rightarrow> int \<Rightarrow> 'a list list" where
  "rot90 m k =
     (let k' = k mod 4 in
      if k' = 0 then m
      else if k' = 2 then rev (map rev m)
      else if k' = 1 then transpose_m (map rev m)
      else map rev (transpose_m m))"

text \<open>
  \<^verbatim>\<open>np.all(a == b)\<close> on two arrays given by their lists of rows (or of elements). Arrays of
  the same length are compared entry by entry; an array of length one is broadcast
  against the other; otherwise the comparison of the numpy versions that still have
  \<^verbatim>\<open>np.int\<close> (used in \<^verbatim>\<open>card.py\<close>) yields the scalar \<^verbatim>\<open>False\<close>.
\<close>

definition np_all_eq :: "'a list \<Rightarrow> 'a list \<Rightarrow> bool" where
  "np_all_eq xs ys =
     (if length xs = length ys then list_all (\<lambda>(x, y). x = y) (zip xs ys)
      else if length xs = 1 then list_all (\<lambda>y. hd xs = y) ys
      else if length ys = 1 then list_all (\<lambda>x. x = hd ys) xs
      else False)"

section \<open>Pattern (\<^verbatim>\<open>tableturf/model/card.py\<close>)\<close>

record Pattern =
  pattern_grid :: "Grid list list"
  pattern_squares :: "Grid list"
  pattern_offsets :: "(int \<times> int) list"
  pattern_size :: nat

text \<open>
  Lines 14 to 17: the rows and the columns that hold a non-empty cell are selected with
  boolean masks.
\<close>

definition trim :: "Grid list list \<Rightarrow> Grid list list" where
  "trim grid =
     (let inks = map (map (\<lambda>c. c \<noteq> Empty)) grid;
          row_mask = any_axis1 inks;
          col_mask = any_axis0 inks
      in map (mask_select col_mask) (mask_select row_mask grid))"

definition is_ink :: "Grid \<Rightarrow> bool" where
  "is_ink c = (c = MyInk \<or> c = MySpecial)"

text \<open>Lines 18 and 19: the size warning.\<close>

definition size_warning :: "Grid list list \<Rightarrow> log list" where
  "size_warning g =
     (if min (fst (shape g)) (snd (shape g)) > 8 then [Warn ''Pattern width/height > 8''] else [])"

text \<open>Lines 22 to 25, on the trimmed grid; \<^verbatim>\<open>indexes[0]\<close> raises when there is no index.\<close>

definition pattern_of :: "Grid list list \<Rightarrow> error + Pattern" where
  "pattern_of g =
     (let indexes = argwhere is_ink g in
      case indexes of
        [] \<Rightarrow> Inl IndexError
      | origin # _ \<Rightarrow>
          Inr \<lparr> pattern_grid = g,
                pattern_squares = map (\<lambda>(i, j). g ! nat i ! nat j) indexes,
                pattern_offsets = map (\<lambda>(i, j). (i - fst origin, j - snd origin)) indexes,
                pattern_size = length indexes \<rparr>)"

text \<open>
  \<^verbatim>\<open>Pattern.__init__\<close>. The test \<^verbatim>\<open>isinstance(grid[0][0], Grid)\<close> of line 12 reads the first
  cell, which raises on an array without one.
\<close>

definition Pattern_init :: "Grid list list \<Rightarrow> log list \<times> (error + Pattern)" where
  "Pattern_init grid =
     (if grid = [] \<or> hd grid = [] then ([], Inl IndexError)
      else let g = trim grid in (size_warning g, pattern_of g))"

text \<open>\<^verbatim>\<open>Pattern.rotate\<close> and \<^verbatim>\<open>Pattern.__eq__\<close>.\<close>

definition rotate :: "Pattern \<Rightarrow> int \<Rightarrow> log list \<times> (error + Pattern)" where
  "rotate p k = Pattern_init (rot90 (pattern_grid p) k)"

definition Pattern_eq :: "Pattern \<Rightarrow> Pattern \<Rightarrow> bool" where
  "Pattern_eq p q =
     (np_all_eq (pattern_offsets p) (pattern_offsets q) \<and>
      np_all_eq (pattern_squares p) (pattern_squares q))"

section \<open>Card (\<^verbatim>\<open>tableturf/model/card.py\<close>)\<close>

record Card =
  card_sp_cost :: int
  card_patterns :: "Pattern list"
  card_size :: nat

text \<open>
  The list comprehension of line 89 builds the four patterns in order and stops at the
  first constructor that raises; warnings logged before that stay in the log.
\<close>

fun build_patterns :: "Grid list list \<Rightarrow> int list \<Rightarrow> log list \<times> (error + Pattern list)" where
  "build_patterns grid [] = ([], Inr [])"
| "build_patterns grid (i # is) =
     (case Pattern_init (rot90 grid i) of
        (w, Inl e) \<Rightarrow> (w, Inl e)
      | (w, Inr p) \<Rightarrow>
          (case build_patterns grid is of
             (w', Inl e) \<Rightarrow> (w @ w', Inl e)
           | (w', Inr ps) \<Rightarrow> (w @ w', Inr (p # ps))))"

definition Card_init :: "Grid list list \<Rightarrow> int \<Rightarrow> log list \<times> (error + Card)" where
  "Card_init grid sp_cost =
     (case build_patterns grid [0, 1, 2, 3] of
        (w, Inl e) \<Rightarrow> (w, Inl e)
      | (w, Inr ps) \<Rightarrow>
          (w, Inr \<lparr> card_sp_cost = sp_cost, card_patterns = ps,
                    card_size = pattern_size (ps ! 0) \<rparr>))"

definition get_pattern :: "Card \<Rightarrow> int \<Rightarrow> Pattern" where
  "get_pattern c r = card_patterns c ! nat (r mod 4)"

definition Card_eq :: "Card \<Rightarrow> Card \<Rightarrow> bool" where
  "Card_eq a b = Pattern_eq (card_patterns a ! 0) (card_patterns b ! 0)"

section \<open>Stage (\<^verbatim>\<open>tableturf/model/stage.py\<close>)\<close>

text \<open>
  The fields of a Stage that the classification of special cells reads or writes. The
  neighbourhood sets of lines 50 to 67 and the mask \<^verbatim>\<open>fiery_grid\<close> of lines 81 to 83 are
  computed next to them and feed into none of these fields.
\<close>

record Stage =
  stage_grid :: "Grid list list"
  stage_size :: nat
  my_ink :: "(int \<times> int) list"
  my_sp :: "(int \<times> int) list"
  my_fiery_sp :: "(int \<times> int) list"
  my_unfiery_sp :: "(int \<times> int) list"
  his_ink :: "(int \<times> int) list"
  his_sp :: "(int \<times> int) list"
  his_fiery_sp :: "(int \<times> int) list"
  his_unfiery_sp :: "(int \<times> int) list"

definition NEIGHBOURHOOD_OFFSETS :: "(int \<times> int) list" where
  "NEIGHBOURHOOD_OFFSETS =
     [(-1, -1), (-1, 0), (-1, 1), (0, -1), (0, 1), (1, -1), (1, 0), (1, 1)]"

definition neighborhoods :: "int \<times> int \<Rightarrow> (int \<times> int) list" where
  "neighborhoods idx = map (\<lambda>(dx, dy). (dx + fst idx, dy + snd idx)) NEIGHBOURHOOD_OFFSETS"

definition within_grid :: "Grid list list \<Rightarrow> (int \<times> int) list \<Rightarrow> (int \<times> int) list" where
  "within_grid grid indexes =
     (let m = int (fst (shape grid)); n = int (snd (shape grid))
      in filter (\<lambda>(xs, ys). xs \<ge> 0 \<and> xs < m \<and> ys \<ge> 0 \<and> ys < n) indexes)"

definition is_fiery :: "Grid list list \<Rightarrow> int \<times> int \<Rightarrow> bool" where
  "is_fiery grid idx =
     (let nbhd = neighborhoods idx;
          valid_nbhd = within_grid grid nbhd
      in list_all (\<lambda>(x, y). grid ! nat x ! nat y \<noteq> Empty) valid_nbhd)"

definition split_sp :: "Grid list list \<Rightarrow> (int \<times> int) list \<Rightarrow> (int \<times> int) list \<times> (int \<times> int) list" where
  "split_sp grid sp =
     (if sp = [] then ([], [])
      else let is_sp_fiery = map (is_fiery grid) sp
           in (mask_select is_sp_fiery sp, mask_select (map Not is_sp_fiery) sp))"

text \<open>\<^verbatim>\<open>Stage.__init__\<close>; line 24 reads \<^verbatim>\<open>grid[0][0]\<close>, which raises on an array without a cell.\<close>

definition Stage_init :: "Grid list list \<Rightarrow> error + Stage" where
  "Stage_init grid =
     (if grid = [] \<or> hd grid = [] then Inl IndexError
      else let mine = argwhere (\<lambda>c. c = MySpecial) grid;
               his = argwhere (\<lambda>c. c = HisSpecial) grid
           in Inr \<lparr> stage_grid = grid,
                    stage_size = length (filter (\<lambda>c. c \<noteq> Wall) (concat grid)),
                    my_ink = argwhere (\<lambda>c. c = MyInk \<or> c = MySpecial) grid,
                    my_sp = mine,
                    my_fiery_sp = fst (split_sp grid mine),
                    my_unfiery_sp = snd (split_sp grid mine),
                    his_ink = argwhere (\<lambda>c. c = HisInk \<or> c = HisSpecial) grid,
                    his_sp = his,
                    his_fiery_sp = fst (split_sp grid his),
                    his_unfiery_sp = snd (split_sp grid his) \<rparr>)"

text \<open>
  The fiery predicate in the words of the specification: every one of the eight
  neighbours that lies inside the grid is non-empty.
\<close>

definition fiery_by_spec :: "Grid list list \<Rightarrow> int \<times> int \<Rightarrow> bool" where
  "fiery_by_spec grid idx =
     (\<forall>di \<in> {-1, 0, 1}. \<forall>dj \<in> {-1, 0, 1}.
        (di, dj) \<noteq> (0, 0) \<and>
        0 \<le> fst idx + di \<and> fst idx + di < int (length grid) \<and>
        0 \<le> snd idx + dj \<and> snd idx + dj < int (length (hd grid))
        \<longrightarrow> grid ! nat (fst idx + di) ! nat (snd idx + dj) \<noteq> Empty)"

section \<open>The stabilizing detection combinator (\<^verbatim>\<open>tableturf/manager/tableturf.py\<close>)\<close>

text \<open>
  The detectors wrapped by \<^verbatim>\<open>__multi_detect\<close> live in \<^verbatim>\<open>tableturf/manager/detection\<close>, which
  is not among the sources; a detector is therefore the sequence of the samples it returns,
  \<open>detect k\<close> being the result of its \<open>k\<close>-th call (counted from 0). A sample is a tuple of
  values or a single value. Values are compared with \<^verbatim>\<open>==\<close>; for two arrays of one shape
  inside a tuple, \<^verbatim>\<open>__equal\<close> takes \<^verbatim>\<open>np.all\<close> of the element-wise comparison, which is
  equality of the arrays.
\<close>

datatype 'a sample = Single 'a | Tuple "'a list"

text \<open>The test of lines 65 to 69 that makes the wrapper return \<^verbatim>\<open>current\<close>.\<close>

fun stable :: "'a sample \<Rightarrow> 'a sample \<Rightarrow> bool" where
  "stable (Tuple previous) (Tuple current) =
     (length previous = length current \<and> list_all (\<lambda>(a, b). a = b) (zip previous current))"
| "stable previous current = (current = previous)"

text \<open>
  The \<^verbatim>\<open>for\<close> loop of lines 62 to 70 with \<open>n\<close> iterations left, \<open>polls\<close> calls of the
  detector made so far and the sample \<open>previous\<close>. The result is the returned sample, the
  number of calls made and the log.
\<close>

fun multi_detect_loop ::
  "(nat \<Rightarrow> 'a sample) \<Rightarrow> nat \<Rightarrow> nat \<Rightarrow> 'a sample \<Rightarrow> 'a sample \<times> nat \<times> log list" where
  "multi_detect_loop detect 0 polls previous =
     (previous, polls, [Warn ''tableturf.multi_detect: exceeded the maximum number of loops''])"
| "multi_detect_loop detect (Suc n) polls previous =
     (let current = detect polls in
      if stable previous current then (current, Suc polls, [])
      else multi_detect_loop detect n (Suc polls) current)"

definition multi_detect :: "(nat \<Rightarrow> 'a sample) \<Rightarrow> nat \<Rightarrow> 'a sample \<times> nat \<times> log list" where
  "multi_detect detect max_loop = multi_detect_loop detect max_loop 1 (detect 0)"

section \<open>Rotation convergence (\<^verbatim>\<open>TableTurfManager.__move\<close>, lines 205 to 218)\<close>










section \<open>Hand detection (\<^verbatim>\<open>tableturf/manager/detection/card.py\<close>)\<close>

text \<open>
  A frame is taken after \<^verbatim>\<open>cv2.cvtColor(..., COLOR_BGR2HSV)\<close>, a conversion applied pixel by
  pixel: a list of rows of HSV pixels. An ROI is given by its top-left corner (row,
  column). The frame is assumed to contain every ROI (the orchestrator resizes frames to
  1920 by 1080), so no slice is empty.
\<close>

type_synonym hsv = "nat \<times> nat \<times> nat"

type_synonym frame = "hsv list list"

type_synonym roi = "nat \<times> nat"

definition HANDS_GRID_ROI_WIDTH :: nat where "HANDS_GRID_ROI_WIDTH = 14"

definition HANDS_GRID_ROI_HEIGHT :: nat where "HANDS_GRID_ROI_HEIGHT = 14"

definition MY_INK_LIGHTER_COLOR_HSV_UPPER_BOUND :: hsv where
  "MY_INK_LIGHTER_COLOR_HSV_UPPER_BOUND = (35, 255, 255)"

definition MY_INK_LIGHTER_COLOR_HSV_LOWER_BOUND :: hsv where
  "MY_INK_LIGHTER_COLOR_HSV_LOWER_BOUND = (30, 100, 150)"

definition MY_SPECIAL_LIGHTER_COLOR_HSV_UPPER_BOUND :: hsv where
  "MY_SPECIAL_LIGHTER_COLOR_HSV_UPPER_BOUND = (25, 255, 255)"

definition MY_SPECIAL_LIGHTER_COLOR_HSV_LOWER_BOUND :: hsv where
  "MY_SPECIAL_LIGHTER_COLOR_HSV_LOWER_BOUND = (20, 100, 150)"

definition MY_INK_DARKER_COLOR_HSV_UPPER_BOUND :: hsv where
  "MY_INK_DARKER_COLOR_HSV_UPPER_BOUND = (35, 255, 140)"

definition MY_INK_DARKER_COLOR_HSV_LOWER_BOUND :: hsv where
  "MY_INK_DARKER_COLOR_HSV_LOWER_BOUND = (27, 100, 100)"

definition MY_SPECIAL_DARKER_COLOR_HSV_UPPER_BOUND :: hsv where
  "MY_SPECIAL_DARKER_COLOR_HSV_UPPER_BOUND = (27, 255, 140)"

definition MY_SPECIAL_DARKER_COLOR_HSV_LOWER_BOUND :: hsv where
  "MY_SPECIAL_DARKER_COLOR_HSV_LOWER_BOUND = (15, 100, 100)"

text \<open>
  The threshold 0.3. A ratio is a pixel count divided by 196, so comparing the exact
  quotient with 3/10 decides as the floating-point comparison does: the count exceeds
  58.8 or it does not, and no quotient lies within rounding distance of 0.3.
\<close>

definition GRID_PIXEL_RATIO :: rat where "GRID_PIXEL_RATIO = 3 / 10"

text \<open>\<^verbatim>\<open>cv2.inRange\<close> marks a pixel when every channel lies between the bounds, bounds included.\<close>

definition in_range :: "hsv \<Rightarrow> hsv \<Rightarrow> hsv \<Rightarrow> bool" where
  "in_range lower_bound upper_bound px =
     (case (lower_bound, upper_bound, px) of
        ((lh, ls, lv), (uh, us, uv), (h, s, v)) \<Rightarrow>
          lh \<le> h \<and> h \<le> uh \<and> ls \<le> s \<and> s \<le> us \<and> lv \<le> v \<and> v \<le> uv)"

text \<open>The inner function \<^verbatim>\<open>__grid_ratios\<close> of lines 58 to 62.\<close>

definition grid_ratios :: "frame \<Rightarrow> roi \<Rightarrow> hsv \<Rightarrow> hsv \<Rightarrow> rat" where
  "grid_ratios img top_left lower_bound upper_bound =
     (let roi = map (\<lambda>row. take HANDS_GRID_ROI_WIDTH (drop (snd top_left) row))
                    (take HANDS_GRID_ROI_HEIGHT (drop (fst top_left) img));
          marked = filter (in_range lower_bound upper_bound) (concat roi)
      in of_nat (length marked) / of_nat (HANDS_GRID_ROI_WIDTH * HANDS_GRID_ROI_HEIGHT))"

text \<open>
  The four ROI tables are module constants computed by \<^verbatim>\<open>util.grid_roi_top_lefts\<close>, which is
  not among the sources: they are parameters, of shapes \<open>(4, 64)\<close> for the grids and
  \<open>(4, 6)\<close> for the cost pips.
\<close>

record layout =
  HANDS_GRID_NUMPY_ROI_TOP_LEFTS :: "roi list list"
  HANDS_COST_NUMPY_ROI_TOP_LEFTS :: "roi list list"
  FOCUS_GRID_NUMPY_ROI_TOP_LEFTS :: "roi list list"
  FOCUS_COST_NUMPY_ROI_TOP_LEFTS :: "roi list list"

text \<open>Lines 66 to 70: the tables in use for a cursor value.\<close>

definition select_rois :: "layout \<Rightarrow> int \<Rightarrow> roi list list \<times> roi list list" where
  "select_rois L cursor =
     (let grid_rois = HANDS_GRID_NUMPY_ROI_TOP_LEFTS L;
          cost_rois = HANDS_COST_NUMPY_ROI_TOP_LEFTS L
      in if 0 \<le> cursor \<and> cursor < 4
         then (grid_rois[nat cursor := FOCUS_GRID_NUMPY_ROI_TOP_LEFTS L ! nat cursor],
               cost_rois[nat cursor := FOCUS_COST_NUMPY_ROI_TOP_LEFTS L ! nat cursor])
         else (grid_rois, cost_rois))"

text \<open>Assignment through a boolean mask, \<^verbatim>\<open>xs[flags] = v\<close>.\<close>

definition assign_where :: "bool list \<Rightarrow> 'a \<Rightarrow> 'a list \<Rightarrow> 'a list" where
  "assign_where flags v xs = map (\<lambda>(f, x). if f then v else x) (zip flags xs)"

text \<open>Lines 83 to 87 on the four flattened \<open>(4, 64)\<close> arrays of ratios.\<close>

definition classify :: "rat list \<Rightarrow> rat list \<Rightarrow> rat list \<Rightarrow> rat list \<Rightarrow> Grid list" where
  "classify grid_ink_ratios grid_special_ratios dark_grid_ink_ratios dark_grid_special_ratios =
     (let grids = replicate (4 * 64) Empty;
          grids = assign_where (map (\<lambda>r. r > GRID_PIXEL_RATIO) grid_ink_ratios) MyInk grids;
          grids = assign_where (map (\<lambda>r. r > GRID_PIXEL_RATIO) grid_special_ratios) MySpecial grids;
          grids = assign_where (map (\<lambda>r. r > GRID_PIXEL_RATIO) dark_grid_ink_ratios) MyInk grids;
          grids = assign_where (map (\<lambda>r. r > GRID_PIXEL_RATIO) dark_grid_special_ratios) MySpecial grids
      in grids)"

text \<open>Lines 72 to 77 and 83 to 87: the classified cells of the four slots, flattened.\<close>

definition hands_grids :: "frame \<Rightarrow> roi list list \<Rightarrow> Grid list" where
  "hands_grids img grid_rois =
     (let ratios = (\<lambda>lower_bound upper_bound.
            map (\<lambda>idx. grid_ratios img idx lower_bound upper_bound) (concat grid_rois))
      in classify
           (ratios MY_INK_LIGHTER_COLOR_HSV_LOWER_BOUND MY_INK_LIGHTER_COLOR_HSV_UPPER_BOUND)
           (ratios MY_SPECIAL_LIGHTER_COLOR_HSV_LOWER_BOUND MY_SPECIAL_LIGHTER_COLOR_HSV_UPPER_BOUND)
           (ratios MY_INK_DARKER_COLOR_HSV_LOWER_BOUND MY_INK_DARKER_COLOR_HSV_UPPER_BOUND)
           (ratios MY_SPECIAL_DARKER_COLOR_HSV_LOWER_BOUND MY_SPECIAL_DARKER_COLOR_HSV_UPPER_BOUND))"

text \<open>\<^verbatim>\<open>a.reshape(-1, n)\<close> of a flat array whose length is a multiple of \<open>n\<close>.\<close>

definition reshape :: "nat \<Rightarrow> 'a list \<Rightarrow> 'a list list" where
  "reshape n xs = map (\<lambda>i. take n (drop (i * n) xs)) [0..<length xs div n]"

text \<open>Lines 79 to 81 and 88: the number of cost pips over the threshold, per slot.\<close>

definition hands_costs :: "frame \<Rightarrow> roi list list \<Rightarrow> int list" where
  "hands_costs img cost_rois =
     (let cost_ratios = map (\<lambda>idx. grid_ratios img idx MY_SPECIAL_LIGHTER_COLOR_HSV_LOWER_BOUND
                                       MY_SPECIAL_LIGHTER_COLOR_HSV_UPPER_BOUND) (concat cost_rois);
          dark_cost_ratios = map (\<lambda>idx. grid_ratios img idx MY_SPECIAL_DARKER_COLOR_HSV_LOWER_BOUND
                                       MY_SPECIAL_DARKER_COLOR_HSV_UPPER_BOUND) (concat cost_rois);
          cost_ratios = map (\<lambda>(a, b). max a b) (zip cost_ratios dark_cost_ratios)
      in map (\<lambda>row. int (length (filter (\<lambda>r. r > GRID_PIXEL_RATIO) row))) (reshape 6 cost_ratios))"

text \<open>Line 129: the four Cards are built in order; the first constructor that raises ends it.\<close>

fun build_cards :: "(Grid list list \<times> int) list \<Rightarrow> log list \<times> (error + Card list)" where
  "build_cards [] = ([], Inr [])"
| "build_cards ((g, sp_cost) # rest) =
     (case Card_init g sp_cost of
        (w, Inl e) \<Rightarrow> (w, Inl e)
      | (w, Inr c) \<Rightarrow>
          (case build_cards rest of
             (w', Inl e) \<Rightarrow> (w @ w', Inl e)
           | (w', Inr cs) \<Rightarrow> (w @ w', Inr (c # cs))))"

text \<open>
  \<^verbatim>\<open>hands\<close>. The cursor detector \<^verbatim>\<open>hands_cursor\<close> of \<^verbatim>\<open>detection/ui.py\<close> is not among the
  sources and is a parameter, used when no cursor is passed. The drawing done for a
  debugger (lines 90 to 127) changes none of the values returned and is left out.
\<close>

definition hands ::
  "layout \<Rightarrow> (frame \<Rightarrow> int) \<Rightarrow> frame \<Rightarrow> int option \<Rightarrow> log list \<times> (error + Card list)" where
  "hands L hands_cursor img cursor =
     (let cursor = (case cursor of None \<Rightarrow> hands_cursor img | Some c \<Rightarrow> c);
          (grid_rois, cost_rois) = select_rois L cursor;
          grids = map (reshape 8) (reshape 64 (hands_grids img grid_rois));
          costs = hands_costs img cost_rois
      in build_cards (zip grids costs))"

section \<open>Auxiliary notions for the proofs\<close>

text \<open>
  An \<open>h \<times> w\<close> matrix; a tight one has no fully-empty row or column; \<open>has_ink\<close> says
  that \<^verbatim>\<open>np.argwhere\<close> of line 22 finds an index. \<open>row_idx\<close> and \<open>col_idx\<close> list the
  rows and columns that the masks of lines 15 and 16 keep.
\<close>

definition is_matrix :: "nat \<Rightarrow> nat \<Rightarrow> 'a list list \<Rightarrow> bool" where
  "is_matrix h w m = (length m = h \<and> (\<forall>r\<in>set m. length r = w))"

definition tight :: "nat \<Rightarrow> nat \<Rightarrow> Grid list list \<Rightarrow> bool" where
  "tight h w m = (is_matrix h w m \<and> 0 < h \<and> 0 < w \<and>
     (\<forall>i<h. \<exists>j<w. m ! i ! j \<noteq> Empty) \<and> (\<forall>j<w. \<exists>i<h. m ! i ! j \<noteq> Empty))"

definition has_ink :: "Grid list list \<Rightarrow> bool" where
  "has_ink m = (\<exists>i<length m. \<exists>j<length (m ! i). is_ink (m ! i ! j))"

definition row_idx :: "nat \<Rightarrow> nat \<Rightarrow> Grid list list \<Rightarrow> nat list" where
  "row_idx h w g = filter (\<lambda>i. \<exists>j<w. g ! i ! j \<noteq> Empty) [0..<h]"

definition col_idx :: "nat \<Rightarrow> nat \<Rightarrow> Grid list list \<Rightarrow> nat list" where
  "col_idx h w g = filter (\<lambda>j. \<exists>i<h. g ! i ! j \<noteq> Empty) [0..<w]"


text \<open>
  The class of one cell read off lines 83 to 87: a later assignment overrides an earlier
  one, so the darker bands come before the lighter ones and, within one brightness, the
  special band before the ink band.
\<close>

definition cell_class :: "rat \<Rightarrow> rat \<Rightarrow> rat \<Rightarrow> rat \<Rightarrow> Grid" where
  "cell_class ink special dark_ink dark_special =
     (if dark_special > GRID_PIXEL_RATIO then MySpecial
      else if dark_ink > GRID_PIXEL_RATIO then MyInk
      else if special > GRID_PIXEL_RATIO then MySpecial
      else if ink > GRID_PIXEL_RATIO then MyInk
      else Empty)"

text \<open>
  A 14 by 14 frame for examples: seven rows in the lighter special colour above seven rows
  in the darker ink colour. \<open>example_rois\<close> is a \<open>(4, 64)\<close> table that points every cell at
  it.
\<close>

definition two_tone_patch :: frame where
  "two_tone_patch = replicate 7 (replicate 14 (22, 200, 200)) @ replicate 7 (replicate 14 (30, 200, 120))"

definition example_rois :: "roi list list" where
  "example_rois = replicate 4 (replicate 64 (0, 0))"

text \<open>
  A second frame for examples, 28 rows of 14 pixels: a block in the lighter ink colour
  above a block in the lighter special colour. In \<open>focus_layout\<close> the normal tables point
  every cell and cost pip at the upper block and the focused tables point them at the
  lower block, so the two layouts read different cells off this frame.
\<close>

definition two_band_frame :: frame where
  "two_band_frame =
     replicate 14 (replicate 14 (32, 200, 200)) @ replicate 14 (replicate 14 (22, 200, 200))"

definition focus_layout :: layout where
  "focus_layout =
     \<lparr> HANDS_GRID_NUMPY_ROI_TOP_LEFTS = replicate 4 (replicate 64 (0, 0)),
       HANDS_COST_NUMPY_ROI_TOP_LEFTS = replicate 4 (replicate 6 (0, 0)),
       FOCUS_GRID_NUMPY_ROI_TOP_LEFTS = replicate 4 (replicate 64 (14, 0)),
       FOCUS_COST_NUMPY_ROI_TOP_LEFTS = replicate 4 (replicate 6 (14, 0)) \<rparr>"

text \<open>The class of the cell sampled at one ROI of a frame.\<close>

definition cell_at :: "frame \<Rightarrow> roi \<Rightarrow> Grid" where
  "cell_at img idx =
     cell_class
       (grid_ratios img idx MY_INK_LIGHTER_COLOR_HSV_LOWER_BOUND MY_INK_LIGHTER_COLOR_HSV_UPPER_BOUND)
       (grid_ratios img idx MY_SPECIAL_LIGHTER_COLOR_HSV_LOWER_BOUND MY_SPECIAL_LIGHTER_COLOR_HSV_UPPER_BOUND)
       (grid_ratios img idx MY_INK_DARKER_COLOR_HSV_LOWER_BOUND MY_INK_DARKER_COLOR_HSV_UPPER_BOUND)
       (grid_ratios img idx MY_SPECIAL_DARKER_COLOR_HSV_LOWER_BOUND MY_SPECIAL_DARKER_COLOR_HSV_UPPER_BOUND)"

section \<open>Rotation and trimming\<close>

lemma is_matrix_shape: "is_matrix h w m \<Longrightarrow> 0 < h \<Longrightarrow> shape m = (h, w)"
  by (cases m) (auto simp: is_matrix_def shape_def)

lemma is_matrix_nth: "is_matrix h w m \<Longrightarrow> i < h \<Longrightarrow> length (m ! i) = w"
  by (auto simp: is_matrix_def)

lemma is_matrix_map_rev: "is_matrix h w m \<Longrightarrow> is_matrix h w (map rev m)"
  by (auto simp: is_matrix_def)

lemma transpose_m_matrix:
  "is_matrix h w m \<Longrightarrow> 0 < h \<Longrightarrow> is_matrix w h (transpose_m m)"
  by (simp add: transpose_m_def is_matrix_shape) (auto simp: is_matrix_def)

lemma transpose_m_nth:
  "is_matrix h w m \<Longrightarrow> 0 < h \<Longrightarrow> i < w \<Longrightarrow> j < h \<Longrightarrow> transpose_m m ! i ! j = m ! j ! i"
  by (simp add: transpose_m_def is_matrix_shape) (simp add: is_matrix_def)

lemma rot90_1: "rot90 m 1 = transpose_m (map rev m)"
  by (simp add: rot90_def)

lemma rot90_1_matrix: "is_matrix h w m \<Longrightarrow> 0 < h \<Longrightarrow> is_matrix w h (rot90 m 1)"
  by (simp add: rot90_1 transpose_m_matrix is_matrix_map_rev)

lemma rot90_1_nth:
  assumes "is_matrix h w m" "0 < h" "i < w" "j < h"
  shows "rot90 m 1 ! i ! j = m ! j ! (w - 1 - i)"
proof -
  have "rot90 m 1 ! i ! j = map rev m ! j ! i"
    using transpose_m_nth [OF is_matrix_map_rev [OF assms(1)] assms(2,3,4)] by (simp add: rot90_1)
  also have "\<dots> = rev (m ! j) ! i"
    using assms by (simp add: is_matrix_def)
  also have "\<dots> = m ! j ! (w - 1 - i)"
    using assms by (simp add: rev_nth is_matrix_nth)
  finally show ?thesis .
qed

lemma matrix_eqI:
  assumes "is_matrix h w a" "is_matrix h w b"
    and "\<And>i j. i < h \<Longrightarrow> j < w \<Longrightarrow> a ! i ! j = b ! i ! j"
  shows "a = b"
proof (rule nth_equalityI)
  show "length a = length b" using assms by (simp add: is_matrix_def)
next
  fix i assume "i < length a"
  then have i: "i < h" using assms by (simp add: is_matrix_def)
  show "a ! i = b ! i"
  proof (rule nth_equalityI)
    show "length (a ! i) = length (b ! i)" using assms i by (simp add: is_matrix_nth)
  next
    fix j assume "j < length (a ! i)"
    then have "j < w" using assms i by (simp add: is_matrix_nth)
    then show "a ! i ! j = b ! i ! j" using assms i by simp
  qed
qed

lemma rot90_four:
  assumes m: "is_matrix h w m" and h: "0 < h" and w: "0 < w"
  shows "rot90 (rot90 (rot90 (rot90 m 1) 1) 1) 1 = m"
proof -
  let ?a = "rot90 m 1" let ?b = "rot90 ?a 1" let ?c = "rot90 ?b 1" let ?d = "rot90 ?c 1"
  have a: "is_matrix w h ?a" using m h by (rule rot90_1_matrix)
  have b: "is_matrix h w ?b" using a w by (rule rot90_1_matrix)
  have c: "is_matrix w h ?c" using b h by (rule rot90_1_matrix)
  have d: "is_matrix h w ?d" using c w by (rule rot90_1_matrix)
  show ?thesis
  proof (rule matrix_eqI [OF d m])
    fix i j assume i: "i < h" and j: "j < w"
    have "?d ! i ! j = ?c ! j ! (h - 1 - i)" using c w i j by (rule rot90_1_nth)
    also have "\<dots> = ?b ! (h - 1 - i) ! (w - 1 - j)"
      using rot90_1_nth [OF b h j, of "h - 1 - i"] i by simp
    also have "\<dots> = ?a ! (w - 1 - j) ! (h - 1 - (h - 1 - i))"
      using rot90_1_nth [OF a w, of "h - 1 - i" "w - 1 - j"] i j by simp
    also have "\<dots> = m ! (h - 1 - (h - 1 - i)) ! (w - 1 - (w - 1 - j))"
      using rot90_1_nth [OF m h, of "w - 1 - j" "h - 1 - (h - 1 - i)"] i j by simp
    also have "\<dots> = m ! i ! j" using i j by simp
    finally show "?d ! i ! j = m ! i ! j" .
  qed
qed

lemma rot90_1_tight:
  assumes "tight h w m" shows "tight w h (rot90 m 1)"
proof -
  from assms have m: "is_matrix h w m" and h: "0 < h" and w: "0 < w"
    and rows: "\<forall>i<h. \<exists>j<w. m ! i ! j \<noteq> Empty" and cols: "\<forall>j<w. \<exists>i<h. m ! i ! j \<noteq> Empty"
    by (simp_all add: tight_def)
  have r: "\<exists>j<h. rot90 m 1 ! i ! j \<noteq> Empty" if i: "i < w" for i
  proof -
    from i have "w - 1 - i < w" by simp
    with cols obtain j where j: "j < h" "m ! j ! (w - 1 - i) \<noteq> Empty" by blast
    then show ?thesis using rot90_1_nth [OF m h i] by auto
  qed
  have c: "\<exists>i<w. rot90 m 1 ! i ! j \<noteq> Empty" if j: "j < h" for j
  proof -
    from rows j obtain k where k: "k < w" "m ! j ! k \<noteq> Empty" by blast
    then have lt: "w - 1 - k < w" and dbl: "w - 1 - (w - 1 - k) = k" by simp_all
    have "rot90 m 1 ! (w - 1 - k) ! j = m ! j ! k"
      using rot90_1_nth [OF m h lt j] dbl by simp
    with k lt show ?thesis by metis
  qed
  show ?thesis using rot90_1_matrix [OF m h] h w r c by (simp add: tight_def)
qed

lemma rot90_1_has_ink:
  assumes m: "is_matrix h w m" and "has_ink m" shows "has_ink (rot90 m 1)"
proof -
  from assms obtain i j where i: "i < h" and j: "j < w" and ink: "is_ink (m ! i ! j)"
    by (auto simp: has_ink_def is_matrix_def)
  then have h: "0 < h" by simp
  have r: "is_matrix w h (rot90 m 1)" using m h by (rule rot90_1_matrix)
  have "w - 1 - j < w" "w - 1 - (w - 1 - j) = j" using j by simp_all
  then have "rot90 m 1 ! (w - 1 - j) ! i = m ! i ! j"
    using rot90_1_nth [OF m h _ i, of "w - 1 - j"] by simp
  moreover have "w - 1 - j < length (rot90 m 1)" "i < length (rot90 m 1 ! (w - 1 - j))"
    using r i j by (simp_all add: is_matrix_def)
  ultimately show ?thesis using ink unfolding has_ink_def by metis
qed

lemma upt_0_Suc: "[0..<Suc n] = 0 # map Suc [0..<n]"
  by (metis map_Suc_upt upt_conv_Cons zero_less_Suc)

lemma mask_select_nth:
  "length flags = length xs \<Longrightarrow>
   mask_select flags xs = map ((!) xs) (filter (\<lambda>k. flags ! k) [0..<length xs])"
proof (induction flags xs rule: list_induct2)
  case Nil
  then show ?case by (simp add: mask_select_def)
next
  case (Cons b flags x xs)
  have "filter (\<lambda>k. (b # flags) ! k) [0..<length (x # xs)] =
        (if b then [0] else []) @ map Suc (filter (\<lambda>k. flags ! k) [0..<length xs])"
    by (simp only: list.size upt_0_Suc add_Suc_right add_0_right) (simp add: filter_map o_def)
  moreover have "mask_select (b # flags) (x # xs) = (if b then [x] else []) @ mask_select flags xs"
    by (simp add: mask_select_def)
  ultimately show ?case using Cons.IH by (simp add: o_def)
qed

lemma list_ex_nth: "list_ex P xs = (\<exists>i<length xs. P (xs ! i))"
  by (rule list_ex_length)

lemma trim_eq:
  assumes m: "is_matrix h w g" and h: "0 < h"
  shows "trim g = map (\<lambda>i. map (\<lambda>j. g ! i ! j) (col_idx h w g)) (row_idx h w g)"
proof -
  let ?inks = "map (map (\<lambda>c. c \<noteq> Empty)) g"
  have im: "is_matrix h w ?inks" using m by (auto simp: is_matrix_def)
  have sh: "snd (shape ?inks) = w" using is_matrix_shape [OF im h] by simp
  have len: "length g = h" using m by (simp add: is_matrix_def)
  have rowlen: "length (g ! i) = w" if "i < h" for i using m that by (rule is_matrix_nth)
  have rm: "any_axis1 ?inks ! i = (\<exists>j<w. g ! i ! j \<noteq> Empty)" if "i < h" for i
    using that len rowlen [OF that] by (auto simp: any_axis1_def list_ex_nth)
  have cm: "any_axis0 ?inks ! j = (\<exists>i<h. g ! i ! j \<noteq> Empty)" if "j < w" for j
  proof -
    have "any_axis0 ?inks ! j = (\<exists>i<h. ?inks ! i ! j)"
      using that len by (simp add: any_axis0_def sh list_ex_nth)
    also have "\<dots> = (\<exists>i<h. g ! i ! j \<noteq> Empty)"
      using that len rowlen by auto
    finally show ?thesis .
  qed
  have lr: "length (any_axis1 ?inks) = length g" by (simp add: any_axis1_def)
  have lc: "length (any_axis0 ?inks) = w" by (simp add: any_axis0_def sh)
  have rows: "filter (\<lambda>k. any_axis1 ?inks ! k) [0..<length g] = row_idx h w g"
    unfolding row_idx_def len by (rule filter_cong) (auto simp: rm)
  have cols: "filter (\<lambda>k. any_axis0 ?inks ! k) [0..<w] = col_idx h w g"
    unfolding col_idx_def by (rule filter_cong) (auto simp: cm)
  have sel_rows: "mask_select (any_axis1 ?inks) g = map ((!) g) (row_idx h w g)"
    using mask_select_nth [OF lr] rows by simp
  have sel_cols: "mask_select (any_axis0 ?inks) (g ! i) = map ((!) (g ! i)) (col_idx h w g)"
    if "i < h" for i
    using mask_select_nth [of "any_axis0 ?inks" "g ! i"] lc rowlen [OF that] cols by simp
  have "trim g = map (mask_select (any_axis0 ?inks)) (map ((!) g) (row_idx h w g))"
    by (simp add: trim_def Let_def sel_rows)
  also have "\<dots> = map (\<lambda>i. map (\<lambda>j. g ! i ! j) (col_idx h w g)) (row_idx h w g)"
    by (auto simp: row_idx_def sel_cols)
  finally show ?thesis .
qed

lemma trim_tight_id:
  assumes t: "tight h w t" shows "trim t = t"
proof -
  from t have m: "is_matrix h w t" and h: "0 < h" by (simp_all add: tight_def)
  have r: "row_idx h w t = [0..<h]" using t by (auto simp: row_idx_def tight_def)
  have c: "col_idx h w t = [0..<w]" using t by (auto simp: col_idx_def tight_def)
  have mm: "is_matrix h w (map (\<lambda>i. map (\<lambda>j. t ! i ! j) [0..<w]) [0..<h])"
    by (auto simp: is_matrix_def)
  have "map (\<lambda>i. map (\<lambda>j. t ! i ! j) [0..<w]) [0..<h] = t"
    by (rule matrix_eqI [OF mm m]) simp
  then show ?thesis by (simp add: trim_eq [OF m h] r c)
qed

lemma trim_tight:
  assumes m: "is_matrix h w g" and h: "0 < h" and ink: "has_ink (trim g)"
  shows "tight (length (row_idx h w g)) (length (col_idx h w g)) (trim g)"
proof -
  let ?R = "row_idx h w g" and ?C = "col_idx h w g"
  have eq: "trim g = map (\<lambda>i. map (\<lambda>j. g ! i ! j) ?C) ?R" using m h by (rule trim_eq)
  have mat: "is_matrix (length ?R) (length ?C) (trim g)" by (auto simp: eq is_matrix_def)
  have nth: "trim g ! a ! b = g ! (?R ! a) ! (?C ! b)" if "a < length ?R" "b < length ?C" for a b
    using that by (simp add: eq)
  from ink obtain a b where "a < length (trim g)" "b < length (trim g ! a)"
    by (auto simp: has_ink_def)
  then have pos: "0 < length ?R" "0 < length ?C" by (auto simp: eq)
  have Rset: "i \<in> set ?R \<longleftrightarrow> i < h \<and> (\<exists>j<w. g ! i ! j \<noteq> Empty)" for i
    by (auto simp: row_idx_def)
  have Cset: "j \<in> set ?C \<longleftrightarrow> j < w \<and> (\<exists>i<h. g ! i ! j \<noteq> Empty)" for j
    by (auto simp: col_idx_def)
  have rows: "\<exists>b<length ?C. trim g ! a ! b \<noteq> Empty" if a: "a < length ?R" for a
  proof -
    from a have "?R ! a \<in> set ?R" by simp
    then obtain j where i: "?R ! a < h" and j: "j < w" "g ! (?R ! a) ! j \<noteq> Empty"
      unfolding Rset by blast
    then have "j \<in> set ?C" unfolding Cset by blast
    then obtain b where b: "b < length ?C" "?C ! b = j" by (auto simp: in_set_conv_nth)
    then show ?thesis using nth [OF a b(1)] j by auto
  qed
  have cols: "\<exists>a<length ?R. trim g ! a ! b \<noteq> Empty" if b: "b < length ?C" for b
  proof -
    from b have "?C ! b \<in> set ?C" by simp
    then obtain i where j: "?C ! b < w" and i: "i < h" "g ! i ! (?C ! b) \<noteq> Empty"
      unfolding Cset by blast
    then have "i \<in> set ?R" unfolding Rset by blast
    then obtain a where a: "a < length ?R" "?R ! a = i" by (auto simp: in_set_conv_nth)
    then show ?thesis using nth [OF a(1) b] i by auto
  qed
  show ?thesis using mat pos rows cols by (simp add: tight_def)
qed

lemma argwhere_empty: "argwhere P m = [] \<longleftrightarrow> \<not> (\<exists>i<length m. \<exists>j<length (m ! i). P (m ! i ! j))"
  by (auto simp: argwhere_def filter_empty_conv)

lemma pattern_of_Inr:
  assumes "pattern_of g = Inr p" shows "pattern_grid p = g \<and> has_ink g"
proof -
  from assms have ne: "argwhere is_ink g \<noteq> []" and pg: "pattern_grid p = g"
    by (auto simp: pattern_of_def Let_def split: list.splits)
  from ne have "has_ink g" unfolding has_ink_def argwhere_empty by simp
  with pg show ?thesis by simp
qed

lemma pattern_of_has_ink:
  assumes "has_ink g" shows "\<exists>p. pattern_of g = Inr p"
proof -
  from assms have "argwhere is_ink g \<noteq> []" unfolding has_ink_def argwhere_empty by simp
  then obtain a as where "argwhere is_ink g = a # as" by (cases "argwhere is_ink g") auto
  then show ?thesis by (simp add: pattern_of_def Let_def)
qed

lemma rect_matrix: "rect g \<Longrightarrow> g \<noteq> [] \<Longrightarrow> is_matrix (length g) (length (hd g)) g"
  by (cases g) (simp_all add: rect_def shape_def is_matrix_def list_all_iff)

lemma Pattern_init_Inr:
  assumes "rect g" and "Pattern_init g = (l, Inr p)"
  shows "\<exists>h w. tight h w (pattern_grid p) \<and> pattern_of (pattern_grid p) = Inr p"
proof -
  from assms(2) have ne: "g \<noteq> []" and po: "pattern_of (trim g) = Inr p"
    by (auto simp: Pattern_init_def Let_def split: if_splits)
  from pattern_of_Inr [OF po] have pg: "pattern_grid p = trim g" and ink: "has_ink (trim g)" by simp_all
  from ne have "0 < length g" by simp
  from trim_tight [OF rect_matrix [OF assms(1) ne] this ink] po pg show ?thesis by auto
qed

lemma tight_hd: "tight h w t \<Longrightarrow> t \<noteq> [] \<and> hd t \<noteq> []"
  by (cases t) (auto simp: tight_def is_matrix_def)

lemma rotate_tight:
  assumes t: "tight h w (pattern_grid p)" and ink: "has_ink (pattern_grid p)"
  shows "\<exists>l q. rotate p 1 = (l, Inr q) \<and> pattern_grid q = rot90 (pattern_grid p) 1 \<and>
               pattern_of (pattern_grid q) = Inr q \<and> tight w h (pattern_grid q) \<and> has_ink (pattern_grid q)"
proof -
  let ?r = "rot90 (pattern_grid p) 1"
  have rt: "tight w h ?r" using t by (rule rot90_1_tight)
  have m: "is_matrix h w (pattern_grid p)" using t by (simp add: tight_def)
  have ri: "has_ink ?r" using m ink by (rule rot90_1_has_ink)
  then obtain q where q: "pattern_of ?r = Inr q" using pattern_of_has_ink by blast
  have "rotate p 1 = (size_warning ?r, Inr q)"
    using tight_hd [OF rt] q by (simp add: rotate_def Pattern_init_def trim_tight_id [OF rt])
  moreover have "pattern_grid q = ?r" using pattern_of_Inr [OF q] by simp
  ultimately show ?thesis using q rt ri by auto
qed

lemma np_all_eq_refl: "np_all_eq xs xs"
  by (auto simp: np_all_eq_def list_all_iff zip_same)

lemma Pattern_eq_refl: "Pattern_eq p p"
  by (simp add: Pattern_eq_def np_all_eq_refl)

text \<open>
  C4. For every Pattern \<open>p\<close> (the result of the constructor on a rectangular grid), four
  successive \<^verbatim>\<open>rotate(1)\<close> calls all succeed and the last result equals \<open>p\<close> under
  \<^verbatim>\<open>Pattern.__eq__\<close>, which compares offsets and squares.
\<close>

theorem C4_rotate_four_times:
  assumes "rect g" and "Pattern_init g = (l, Inr p)"
  shows "\<exists>l1 p1 l2 p2 l3 p3 l4 p4.
           rotate p 1 = (l1, Inr p1) \<and> rotate p1 1 = (l2, Inr p2) \<and>
           rotate p2 1 = (l3, Inr p3) \<and> rotate p3 1 = (l4, Inr p4) \<and> Pattern_eq p4 p"
proof -
  from Pattern_init_Inr [OF assms] obtain h w
    where t: "tight h w (pattern_grid p)" and po: "pattern_of (pattern_grid p) = Inr p" by blast
  have ink: "has_ink (pattern_grid p)" using pattern_of_Inr [OF po] by simp
  from rotate_tight [OF t ink] obtain l1 p1 where r1: "rotate p 1 = (l1, Inr p1)"
    and g1: "pattern_grid p1 = rot90 (pattern_grid p) 1"
    and t1: "tight w h (pattern_grid p1)" and i1: "has_ink (pattern_grid p1)"
    by blast
  from rotate_tight [OF t1 i1] obtain l2 p2 where r2: "rotate p1 1 = (l2, Inr p2)"
    and g2: "pattern_grid p2 = rot90 (pattern_grid p1) 1"
    and t2: "tight h w (pattern_grid p2)" and i2: "has_ink (pattern_grid p2)"
    by blast
  from rotate_tight [OF t2 i2] obtain l3 p3 where r3: "rotate p2 1 = (l3, Inr p3)"
    and g3: "pattern_grid p3 = rot90 (pattern_grid p2) 1"
    and t3: "tight w h (pattern_grid p3)" and i3: "has_ink (pattern_grid p3)"
    by blast
  from rotate_tight [OF t3 i3] obtain l4 p4 where r4: "rotate p3 1 = (l4, Inr p4)"
    and g4: "pattern_grid p4 = rot90 (pattern_grid p3) 1"
    and po4: "pattern_of (pattern_grid p4) = Inr p4"
    by blast
  from t have "is_matrix h w (pattern_grid p)" "0 < h" "0 < w" by (simp_all add: tight_def)
  from rot90_four [OF this] have same: "pattern_grid p4 = pattern_grid p"
    unfolding g4 g3 g2 g1 .
  have "(Inr p4 :: error + Pattern) = Inr p"
    using po4 [unfolded same, symmetric] po by (rule trans)
  then have "p4 = p" by (simp only: sum.inject)
  then have "Pattern_eq p4 p" by (simp only: Pattern_eq_refl)
  with r1 r2 r3 r4 show ?thesis by (intro exI conjI)
qed

theorem C4_rotate_four_times_witness:
  "rect [[MyInk, Empty], [MySpecial, MyInk]] \<and>
   Pattern_init [[MyInk, Empty], [MySpecial, MyInk]] =
     ([], Inr \<lparr> pattern_grid = [[MyInk, Empty], [MySpecial, MyInk]],
                pattern_squares = [MyInk, MySpecial, MyInk],
                pattern_offsets = [(0, 0), (1, 0), (1, 1)], pattern_size = 3 \<rparr>) \<and>
   (\<exists>l1 p1 l2 p2 l3 p3 l4 p4.
      rotate \<lparr> pattern_grid = [[MyInk, Empty], [MySpecial, MyInk]],
               pattern_squares = [MyInk, MySpecial, MyInk],
               pattern_offsets = [(0, 0), (1, 0), (1, 1)], pattern_size = 3 \<rparr> 1 = (l1, Inr p1) \<and>
      rotate p1 1 = (l2, Inr p2) \<and> rotate p2 1 = (l3, Inr p3) \<and>
      rotate p3 1 = (l4, Inr p4) \<and>
      Pattern_eq p4 \<lparr> pattern_grid = [[MyInk, Empty], [MySpecial, MyInk]],
                       pattern_squares = [MyInk, MySpecial, MyInk],
                       pattern_offsets = [(0, 0), (1, 0), (1, 1)], pattern_size = 3 \<rparr>)"
proof -
  have r: "rect [[MyInk, Empty], [MySpecial, MyInk]]" by code_simp
  have i: "Pattern_init [[MyInk, Empty], [MySpecial, MyInk]] =
     ([], Inr \<lparr> pattern_grid = [[MyInk, Empty], [MySpecial, MyInk]],
                pattern_squares = [MyInk, MySpecial, MyInk],
                pattern_offsets = [(0, 0), (1, 0), (1, 1)], pattern_size = 3 \<rparr>)" by code_simp
  from C4_rotate_four_times [OF r i] r i show ?thesis by (intro conjI)
qed

section \<open>Pattern construction on grids without ink\<close>

text \<open>
  C1. The claim: for every rectangular CellState matrix, an all-empty one included,
  Pattern construction raises nothing and yields a Pattern, of size 0 for an all-empty
  input. On the code, the all-empty matrix is trimmed to the \<open>(0, 0)\<close> array, no index
  of an ink cell is found, and \<^verbatim>\<open>indexes[0]\<close> of line 24 raises \<^verbatim>\<open>IndexError\<close>: no
  Pattern is produced. The same happens for the all-empty \<open>8 \<times> 8\<close> grid that the hand
  detector builds for a slot in which no cell matches.
\<close>

theorem C1_Pattern_init_all_empty_raises:
  "Pattern_init [[Empty]] = ([], Inl IndexError) \<and>
   Pattern_init (replicate 8 (replicate 8 Empty)) = ([], Inl IndexError)"
  by code_simp

section \<open>What the trimming keeps\<close>

text \<open>
  C3. The claim: the grid stored by Pattern(G) is the minimal bounding box of the
  non-empty cells of G, every cell of G inside that rectangle preserved. On the code, the
  masks of lines 15 to 17 drop every fully-empty row and column, also those inside the
  bounding box: of the row MyInk, Empty, MyInk the empty middle column is dropped, the
  stored grid has two columns and the second offset is \<open>(0, 1)\<close> rather than \<open>(0, 2)\<close>.
\<close>

theorem C3_Pattern_init_drops_inner_column:
  "Pattern_init [[MyInk, Empty, MyInk]] =
     ([], Inr \<lparr> pattern_grid = [[MyInk, MyInk]], pattern_squares = [MyInk, MyInk],
                pattern_offsets = [(0, 0), (0, 1)], pattern_size = 2 \<rparr>)"
  by code_simp

section \<open>The size warning\<close>

text \<open>
  C7. The claim: a warning is logged whenever the trimmed bounding box exceeds 8 in
  either dimension, and construction goes on with the oversized pattern. On the code, line
  18 tests the smaller of the two dimensions, so a pattern of 9 rows and 1 column is
  built without any warning; the warning appears only when both dimensions exceed 8.
\<close>

theorem C7_Pattern_init_nine_by_one_no_warning:
  "fst (Pattern_init (replicate 9 [MyInk])) = [] \<and>
   map_sum id pattern_grid (snd (Pattern_init (replicate 9 [MyInk]))) = Inr (replicate 9 [MyInk]) \<and>
   fst (Pattern_init (replicate 9 (replicate 9 MyInk))) = [Warn ''Pattern width/height > 8'']"
  by code_simp

section \<open>Card equality\<close>

lemma rot90_0: "rot90 m 0 = m"
  by (simp add: rot90_def)

lemma build_patterns_first:
  "build_patterns g (i # is) = (l, Inr ps) \<Longrightarrow> \<exists>w. Pattern_init (rot90 g i) = (w, Inr (ps ! 0))"
  by (auto split: prod.splits sum.splits)

lemma Card_init_first:
  assumes "Card_init g c = (l, Inr a)"
  shows "\<exists>w. Pattern_init g = (w, Inr (card_patterns a ! 0))"
proof -
  from assms obtain ps where b: "build_patterns g [0, 1, 2, 3] = (l, Inr ps)"
    and a: "card_patterns a = ps"
    by (auto simp: Card_init_def split: prod.splits sum.splits)
  from build_patterns_first [OF b] a show ?thesis by (simp add: rot90_0)
qed

text \<open>
  C8. Two Cards are equal under \<^verbatim>\<open>Card.__eq__\<close> exactly when their rotation-0 Patterns
  (the Patterns of the two input grids) are equal under \<^verbatim>\<open>Pattern.__eq__\<close>; \<open>sp_cost\<close> plays
  no part. In particular two Cards built from the same grid are equal whatever their
  costs.
\<close>

theorem C8_Card_eq_ignores_sp_cost:
  assumes "Card_init g1 c1 = (l1, Inr a)" and "Card_init g2 c2 = (l2, Inr b)"
  shows "(\<exists>w1 p1 w2 p2. Pattern_init g1 = (w1, Inr p1) \<and> Pattern_init g2 = (w2, Inr p2) \<and>
            Card_eq a b = Pattern_eq p1 p2) \<and>
         (g1 = g2 \<longrightarrow> Card_eq a b)"
proof -
  from Card_init_first [OF assms(1)] obtain w1
    where 1: "Pattern_init g1 = (w1, Inr (card_patterns a ! 0))" by blast
  from Card_init_first [OF assms(2)] obtain w2
    where 2: "Pattern_init g2 = (w2, Inr (card_patterns b ! 0))" by blast
  have eq: "Card_eq a b = Pattern_eq (card_patterns a ! 0) (card_patterns b ! 0)"
    by (simp add: Card_eq_def)
  have same: "Card_eq a b" if "g1 = g2"
  proof -
    from 1 2 that have "card_patterns a ! 0 = card_patterns b ! 0" by simp
    then show ?thesis by (simp add: Card_eq_def Pattern_eq_refl)
  qed
  from 1 2 eq have "\<exists>w1 p1 w2 p2. Pattern_init g1 = (w1, Inr p1) \<and> Pattern_init g2 = (w2, Inr p2) \<and>
            Card_eq a b = Pattern_eq p1 p2" by (intro exI conjI)
  with same show ?thesis by simp
qed


theorem C8_Card_eq_ignores_sp_cost_witness:
  "Card_init [[MyInk, MySpecial]] 1 =
     ([], Inr \<lparr> card_sp_cost = 1,
        card_patterns =
          [\<lparr> pattern_grid = [[MyInk, MySpecial]], pattern_squares = [MyInk, MySpecial],
              pattern_offsets = [(0, 0), (0, 1)], pattern_size = 2 \<rparr>,
           \<lparr> pattern_grid = [[MySpecial], [MyInk]], pattern_squares = [MySpecial, MyInk],
              pattern_offsets = [(0, 0), (1, 0)], pattern_size = 2 \<rparr>,
           \<lparr> pattern_grid = [[MySpecial, MyInk]], pattern_squares = [MySpecial, MyInk],
              pattern_offsets = [(0, 0), (0, 1)], pattern_size = 2 \<rparr>,
           \<lparr> pattern_grid = [[MyInk], [MySpecial]], pattern_squares = [MyInk, MySpecial],
              pattern_offsets = [(0, 0), (1, 0)], pattern_size = 2 \<rparr>],
        card_size = 2 \<rparr>) \<and>
   Card_init [[MyInk, MySpecial]] 5 =
     ([], Inr \<lparr> card_sp_cost = 5,
        card_patterns =
          [\<lparr> pattern_grid = [[MyInk, MySpecial]], pattern_squares = [MyInk, MySpecial],
              pattern_offsets = [(0, 0), (0, 1)], pattern_size = 2 \<rparr>,
           \<lparr> pattern_grid = [[MySpecial], [MyInk]], pattern_squares = [MySpecial, MyInk],
              pattern_offsets = [(0, 0), (1, 0)], pattern_size = 2 \<rparr>,
           \<lparr> pattern_grid = [[MySpecial, MyInk]], pattern_squares = [MySpecial, MyInk],
              pattern_offsets = [(0, 0), (0, 1)], pattern_size = 2 \<rparr>,
           \<lparr> pattern_grid = [[MyInk], [MySpecial]], pattern_squares = [MyInk, MySpecial],
              pattern_offsets = [(0, 0), (1, 0)], pattern_size = 2 \<rparr>],
        card_size = 2 \<rparr>) \<and>
   Card_eq (projr (snd (Card_init [[MyInk, MySpecial]] 1)))
           (projr (snd (Card_init [[MyInk, MySpecial]] 5)))"
proof -
  have a: "Card_init [[MyInk, MySpecial]] 1 =
     ([], Inr \<lparr> card_sp_cost = 1,
        card_patterns =
          [\<lparr> pattern_grid = [[MyInk, MySpecial]], pattern_squares = [MyInk, MySpecial],
              pattern_offsets = [(0, 0), (0, 1)], pattern_size = 2 \<rparr>,
           \<lparr> pattern_grid = [[MySpecial], [MyInk]], pattern_squares = [MySpecial, MyInk],
              pattern_offsets = [(0, 0), (1, 0)], pattern_size = 2 \<rparr>,
           \<lparr> pattern_grid = [[MySpecial, MyInk]], pattern_squares = [MySpecial, MyInk],
              pattern_offsets = [(0, 0), (0, 1)], pattern_size = 2 \<rparr>,
           \<lparr> pattern_grid = [[MyInk], [MySpecial]], pattern_squares = [MyInk, MySpecial],
              pattern_offsets = [(0, 0), (1, 0)], pattern_size = 2 \<rparr>],
        card_size = 2 \<rparr>)" by code_simp
  have b: "Card_init [[MyInk, MySpecial]] 5 =
     ([], Inr \<lparr> card_sp_cost = 5,
        card_patterns =
          [\<lparr> pattern_grid = [[MyInk, MySpecial]], pattern_squares = [MyInk, MySpecial],
              pattern_offsets = [(0, 0), (0, 1)], pattern_size = 2 \<rparr>,
           \<lparr> pattern_grid = [[MySpecial], [MyInk]], pattern_squares = [MySpecial, MyInk],
              pattern_offsets = [(0, 0), (1, 0)], pattern_size = 2 \<rparr>,
           \<lparr> pattern_grid = [[MySpecial, MyInk]], pattern_squares = [MySpecial, MyInk],
              pattern_offsets = [(0, 0), (0, 1)], pattern_size = 2 \<rparr>,
           \<lparr> pattern_grid = [[MyInk], [MySpecial]], pattern_squares = [MyInk, MySpecial],
              pattern_offsets = [(0, 0), (1, 0)], pattern_size = 2 \<rparr>],
        card_size = 2 \<rparr>)" by code_simp
  from C8_Card_eq_ignores_sp_cost [OF a b] a b show ?thesis by (simp only: snd_conv sum.sel simp_thms)
qed

section \<open>The stabilizing detection combinator\<close>






section \<open>Fiery special cells\<close>

lemma mask_select_map: "mask_select (map P xs) xs = filter P xs"
  by (induction xs) (simp_all add: mask_select_def)

lemma split_sp_filter:
  "split_sp grid sp = (filter (is_fiery grid) sp, filter (\<lambda>idx. \<not> is_fiery grid idx) sp)"
proof (cases "sp = []")
  case True
  then show ?thesis by (simp add: split_sp_def)
next
  case False
  have "mask_select (map Not (map (is_fiery grid) sp)) sp = filter (\<lambda>idx. \<not> is_fiery grid idx) sp"
    using mask_select_map [of "\<lambda>idx. \<not> is_fiery grid idx" sp] by (simp add: o_def)
  with False show ?thesis by (simp add: split_sp_def Let_def mask_select_map)
qed

lemma argwhere_set:
  "idx \<in> set (argwhere P m) \<longleftrightarrow>
   (\<exists>a<length m. \<exists>b<length (m ! a). idx = (int a, int b) \<and> P (m ! a ! b))"
  by (auto simp: argwhere_def)

lemma shape_nonempty: "grid \<noteq> [] \<Longrightarrow> shape grid = (length grid, length (hd grid))"
  by (simp add: shape_def)

lemma list_all_filter: "list_all P (filter Q xs) \<longleftrightarrow> (\<forall>x\<in>set xs. Q x \<longrightarrow> P x)"
  by (auto simp: list_all_iff)

lemma neighborhoods_set:
  "set (neighborhoods (i, j)) =
     {(i - 1, j - 1), (i - 1, j), (i - 1, j + 1), (i, j - 1), (i, j + 1),
      (i + 1, j - 1), (i + 1, j), (i + 1, j + 1)}"
  by (simp add: neighborhoods_def NEIGHBOURHOOD_OFFSETS_def add.commute)

lemma is_fiery_unfold:
  assumes "grid \<noteq> []"
  shows "is_fiery grid (i, j) \<longleftrightarrow>
    (\<forall>p \<in> {(i - 1, j - 1), (i - 1, j), (i - 1, j + 1), (i, j - 1), (i, j + 1),
      (i + 1, j - 1), (i + 1, j), (i + 1, j + 1)}.
       (0 \<le> fst p \<and> fst p < int (length grid) \<and> 0 \<le> snd p \<and> snd p < int (length (hd grid)))
       \<longrightarrow> grid ! nat (fst p) ! nat (snd p) \<noteq> Empty)"
  unfolding is_fiery_def within_grid_def Let_def shape_nonempty [OF assms] list_all_filter
    neighborhoods_set
  by (simp only: split_beta fst_conv snd_conv)

lemma fiery_by_spec_unfold:
  "fiery_by_spec grid (i, j) \<longleftrightarrow>
    (\<forall>p \<in> {(i - 1, j - 1), (i - 1, j), (i - 1, j + 1), (i, j - 1), (i, j + 1),
      (i + 1, j - 1), (i + 1, j), (i + 1, j + 1)}.
       (0 \<le> fst p \<and> fst p < int (length grid) \<and> 0 \<le> snd p \<and> snd p < int (length (hd grid)))
       \<longrightarrow> grid ! nat (fst p) ! nat (snd p) \<noteq> Empty)"
  unfolding fiery_by_spec_def by (simp add: conj_ac)


lemma is_fiery_spec:
  assumes "grid \<noteq> []" shows "is_fiery grid idx = fiery_by_spec grid idx"
proof (cases idx)
  case (Pair i j)
  show ?thesis unfolding Pair is_fiery_unfold [OF assms] fiery_by_spec_unfold ..
qed

lemma Stage_init_sp:
  assumes "Stage_init grid = Inr s"
  shows "grid \<noteq> []"
    and "my_sp s = argwhere (\<lambda>c. c = MySpecial) grid"
    and "his_sp s = argwhere (\<lambda>c. c = HisSpecial) grid"
    and "my_fiery_sp s = filter (is_fiery grid) (my_sp s)"
    and "my_unfiery_sp s = filter (\<lambda>idx. \<not> is_fiery grid idx) (my_sp s)"
    and "his_fiery_sp s = filter (is_fiery grid) (his_sp s)"
    and "his_unfiery_sp s = filter (\<lambda>idx. \<not> is_fiery grid idx) (his_sp s)"
  using assms by (auto simp: Stage_init_def Let_def split_sp_filter split: if_splits)

text \<open>
  C6. For a Stage built from a grid and for each player, the special cells of the player
  are the cells holding that player's special value; \<open>fiery_sp\<close> lists those of them
  whose in-bounds 8-neighbours are all non-empty (neighbour positions outside the grid
  are left out of the check) and \<open>unfiery_sp\<close> lists the others, both in row-major order;
  so the two lists partition the special cells.
\<close>

theorem C6_fiery_partition:
  assumes "Stage_init grid = Inr s"
  shows "(\<forall>idx. idx \<in> set (my_sp s) \<longleftrightarrow>
            (\<exists>a<length grid. \<exists>b<length (grid ! a). idx = (int a, int b) \<and> grid ! a ! b = MySpecial)) \<and>
         (\<forall>idx. idx \<in> set (his_sp s) \<longleftrightarrow>
            (\<exists>a<length grid. \<exists>b<length (grid ! a). idx = (int a, int b) \<and> grid ! a ! b = HisSpecial)) \<and>
         my_fiery_sp s = filter (fiery_by_spec grid) (my_sp s) \<and>
         my_unfiery_sp s = filter (\<lambda>idx. \<not> fiery_by_spec grid idx) (my_sp s) \<and>
         his_fiery_sp s = filter (fiery_by_spec grid) (his_sp s) \<and>
         his_unfiery_sp s = filter (\<lambda>idx. \<not> fiery_by_spec grid idx) (his_sp s) \<and>
         set (my_fiery_sp s) \<union> set (my_unfiery_sp s) = set (my_sp s) \<and>
         set (my_fiery_sp s) \<inter> set (my_unfiery_sp s) = {} \<and>
         set (his_fiery_sp s) \<union> set (his_unfiery_sp s) = set (his_sp s) \<and>
         set (his_fiery_sp s) \<inter> set (his_unfiery_sp s) = {}"
proof -
  note sp = Stage_init_sp [OF assms]
  have f: "is_fiery grid = fiery_by_spec grid"
    using is_fiery_spec [OF sp(1)] by (intro ext)
  have mf: "my_fiery_sp s = filter (fiery_by_spec grid) (my_sp s)"
    and mu: "my_unfiery_sp s = filter (\<lambda>idx. \<not> fiery_by_spec grid idx) (my_sp s)"
    and hf: "his_fiery_sp s = filter (fiery_by_spec grid) (his_sp s)"
    and hu: "his_unfiery_sp s = filter (\<lambda>idx. \<not> fiery_by_spec grid idx) (his_sp s)"
    using sp(4-7) unfolding f by simp_all
  have m: "\<forall>idx. idx \<in> set (my_sp s) \<longleftrightarrow>
            (\<exists>a<length grid. \<exists>b<length (grid ! a). idx = (int a, int b) \<and> grid ! a ! b = MySpecial)"
    unfolding sp(2) argwhere_set by simp
  have h: "\<forall>idx. idx \<in> set (his_sp s) \<longleftrightarrow>
            (\<exists>a<length grid. \<exists>b<length (grid ! a). idx = (int a, int b) \<and> grid ! a ! b = HisSpecial)"
    unfolding sp(3) argwhere_set by simp
  have p1: "set (my_fiery_sp s) \<union> set (my_unfiery_sp s) = set (my_sp s)"
    unfolding mf mu by auto
  have p2: "set (my_fiery_sp s) \<inter> set (my_unfiery_sp s) = {}"
    unfolding mf mu by auto
  have p3: "set (his_fiery_sp s) \<union> set (his_unfiery_sp s) = set (his_sp s)"
    unfolding hf hu by auto
  have p4: "set (his_fiery_sp s) \<inter> set (his_unfiery_sp s) = {}"
    unfolding hf hu by auto
  from m h mf mu hf hu p1 p2 p3 p4 show ?thesis by (intro conjI)
qed

theorem C6_fiery_partition_witness:
  "Stage_init [[MySpecial, MyInk, Empty], [Wall, HisInk, HisSpecial]] =
     Inr \<lparr> stage_grid = [[MySpecial, MyInk, Empty], [Wall, HisInk, HisSpecial]],
           stage_size = 5, my_ink = [(0, 0), (0, 1)], my_sp = [(0, 0)],
           my_fiery_sp = [(0, 0)], my_unfiery_sp = [],
           his_ink = [(1, 1), (1, 2)], his_sp = [(1, 2)], his_fiery_sp = [],
           his_unfiery_sp = [(1, 2)] \<rparr> \<and>
   [(0, 0)] = filter (fiery_by_spec [[MySpecial, MyInk, Empty], [Wall, HisInk, HisSpecial]]) [(0, 0)] \<and>
   [(1, 2)] = filter (\<lambda>idx. \<not> fiery_by_spec [[MySpecial, MyInk, Empty], [Wall, HisInk, HisSpecial]] idx)
                [(1, 2)]"
proof -
  let ?g = "[[MySpecial, MyInk, Empty], [Wall, HisInk, HisSpecial]]"
  let ?s = "\<lparr> stage_grid = ?g,
           stage_size = 5, my_ink = [(0, 0), (0, 1)], my_sp = [(0, 0)],
           my_fiery_sp = [(0, 0)], my_unfiery_sp = [],
           his_ink = [(1, 1), (1, 2)], his_sp = [(1, 2)], his_fiery_sp = [],
           his_unfiery_sp = [(1, 2)] \<rparr>"
  have h: "Stage_init ?g = Inr ?s" by code_simp
  from C6_fiery_partition [OF h]
  have "my_fiery_sp ?s = filter (fiery_by_spec ?g) (my_sp ?s)"
    and "his_unfiery_sp ?s = filter (\<lambda>idx. \<not> fiery_by_spec ?g idx) (his_sp ?s)"
    by blast+
  then have "[(0, 0)] = filter (fiery_by_spec ?g) [(0, 0)]"
    and "[(1, 2)] = filter (\<lambda>idx. \<not> fiery_by_spec ?g idx) [(1, 2)]"
    by (simp_all only: Stage.simps)
  with h show ?thesis by (intro conjI)
qed

section \<open>Rotation convergence\<close>







section \<open>Hand detection\<close>

lemma length_assign_where [simp]:
  "length (assign_where flags v xs) = min (length flags) (length xs)"
  by (simp add: assign_where_def)

lemma assign_where_nth:
  "k < length flags \<Longrightarrow> k < length xs \<Longrightarrow>
   assign_where flags v xs ! k = (if flags ! k then v else xs ! k)"
  by (simp add: assign_where_def)

lemma classify_nth:
  assumes "k < length a" "length b = length a" "length c = length a" "length d = length a"
    and "length a \<le> 256"
  shows "classify a b c d ! k = cell_class (a ! k) (b ! k) (c ! k) (d ! k)"
  using assms by (simp add: classify_def Let_def assign_where_nth cell_class_def)

lemma hands_grids_nth:
  assumes "k < length (concat grid_rois)" and "length (concat grid_rois) \<le> 256"
  shows "hands_grids img grid_rois ! k =
     cell_class
       (grid_ratios img (concat grid_rois ! k)
          MY_INK_LIGHTER_COLOR_HSV_LOWER_BOUND MY_INK_LIGHTER_COLOR_HSV_UPPER_BOUND)
       (grid_ratios img (concat grid_rois ! k)
          MY_SPECIAL_LIGHTER_COLOR_HSV_LOWER_BOUND MY_SPECIAL_LIGHTER_COLOR_HSV_UPPER_BOUND)
       (grid_ratios img (concat grid_rois ! k)
          MY_INK_DARKER_COLOR_HSV_LOWER_BOUND MY_INK_DARKER_COLOR_HSV_UPPER_BOUND)
       (grid_ratios img (concat grid_rois ! k)
          MY_SPECIAL_DARKER_COLOR_HSV_LOWER_BOUND MY_SPECIAL_DARKER_COLOR_HSV_UPPER_BOUND)"
  using assms unfolding hands_grids_def Let_def
  by (subst classify_nth) simp_all

lemma count_block:
  "length (filter P (concat (replicate n (replicate m x)))) = (if P x then n * m else 0)"
  by (induction n) simp_all

lemma patch_roi:
  "map (\<lambda>row. take HANDS_GRID_ROI_WIDTH (drop (snd (0::nat, 0::nat)) row))
       (take HANDS_GRID_ROI_HEIGHT (drop (fst (0::nat, 0::nat)) two_tone_patch)) = two_tone_patch"
  by (simp add: HANDS_GRID_ROI_WIDTH_def HANDS_GRID_ROI_HEIGHT_def two_tone_patch_def)

lemma patch_count:
  "length (filter P (concat two_tone_patch)) =
     (if P (22, 200, 200) then 98 else 0) + (if P (30, 200, 120) then 98 else 0)"
  by (simp add: two_tone_patch_def count_block)

lemma patch_ratios:
  "grid_ratios two_tone_patch (0, 0)
     MY_INK_LIGHTER_COLOR_HSV_LOWER_BOUND MY_INK_LIGHTER_COLOR_HSV_UPPER_BOUND = 0"
  "grid_ratios two_tone_patch (0, 0)
     MY_SPECIAL_LIGHTER_COLOR_HSV_LOWER_BOUND MY_SPECIAL_LIGHTER_COLOR_HSV_UPPER_BOUND = 1 / 2"
  "grid_ratios two_tone_patch (0, 0)
     MY_INK_DARKER_COLOR_HSV_LOWER_BOUND MY_INK_DARKER_COLOR_HSV_UPPER_BOUND = 1 / 2"
  "grid_ratios two_tone_patch (0, 0)
     MY_SPECIAL_DARKER_COLOR_HSV_LOWER_BOUND MY_SPECIAL_DARKER_COLOR_HSV_UPPER_BOUND = 0"
  unfolding grid_ratios_def Let_def patch_roi patch_count
  by (simp_all add: in_range_def HANDS_GRID_ROI_WIDTH_def HANDS_GRID_ROI_HEIGHT_def
      MY_INK_LIGHTER_COLOR_HSV_LOWER_BOUND_def MY_INK_LIGHTER_COLOR_HSV_UPPER_BOUND_def
      MY_SPECIAL_LIGHTER_COLOR_HSV_LOWER_BOUND_def MY_SPECIAL_LIGHTER_COLOR_HSV_UPPER_BOUND_def
      MY_INK_DARKER_COLOR_HSV_LOWER_BOUND_def MY_INK_DARKER_COLOR_HSV_UPPER_BOUND_def
      MY_SPECIAL_DARKER_COLOR_HSV_LOWER_BOUND_def MY_SPECIAL_DARKER_COLOR_HSV_UPPER_BOUND_def)

lemma example_rois_length: "length (concat example_rois) = 256"
  by (simp add: example_rois_def length_concat sum_list_replicate)

lemma example_rois_nth:
  assumes "k < 256" shows "concat example_rois ! k = (0, 0)"
proof -
  have "concat example_rois ! k \<in> set (concat example_rois)"
    by (rule nth_mem) (simp add: example_rois_length assms)
  moreover have "set (concat example_rois) \<subseteq> {(0, 0)}"
    by (auto simp: example_rois_def)
  ultimately show ?thesis by blast
qed

text \<open>
  C2, amended. For every frame and every cell of the ROI tables in use, with the four
  truth values "the ratio under this band exceeds 0.3": the cell is MySpecial exactly
  when the darker special band exceeds the threshold, or the lighter special band does
  and the darker ink band does not; it is MyInk exactly when the darker special band does
  not exceed it and either the darker ink band does, or the lighter ink band does and the
  lighter special band does not; it is Empty exactly when no band exceeds it.
\<close>

theorem C2_hands_classification:
  assumes "k < length (concat grid_rois)" and "length (concat grid_rois) \<le> 256"
  shows "let idx = concat grid_rois ! k;
             ink = grid_ratios img idx MY_INK_LIGHTER_COLOR_HSV_LOWER_BOUND
                     MY_INK_LIGHTER_COLOR_HSV_UPPER_BOUND > GRID_PIXEL_RATIO;
             special = grid_ratios img idx MY_SPECIAL_LIGHTER_COLOR_HSV_LOWER_BOUND
                     MY_SPECIAL_LIGHTER_COLOR_HSV_UPPER_BOUND > GRID_PIXEL_RATIO;
             dark_ink = grid_ratios img idx MY_INK_DARKER_COLOR_HSV_LOWER_BOUND
                     MY_INK_DARKER_COLOR_HSV_UPPER_BOUND > GRID_PIXEL_RATIO;
             dark_special = grid_ratios img idx MY_SPECIAL_DARKER_COLOR_HSV_LOWER_BOUND
                     MY_SPECIAL_DARKER_COLOR_HSV_UPPER_BOUND > GRID_PIXEL_RATIO;
             c = hands_grids img grid_rois ! k
         in (c = MySpecial \<longleftrightarrow> dark_special \<or> (special \<and> \<not> dark_ink)) \<and>
            (c = MyInk \<longleftrightarrow> \<not> dark_special \<and> (dark_ink \<or> (ink \<and> \<not> special))) \<and>
            (c = Empty \<longleftrightarrow> \<not> ink \<and> \<not> special \<and> \<not> dark_ink \<and> \<not> dark_special)"
  unfolding Let_def hands_grids_nth [OF assms] cell_class_def by auto

theorem C2_hands_classification_witness:
  "(0::nat) < length (concat example_rois) \<and> length (concat example_rois) \<le> 256 \<and>
   hands_grids two_tone_patch example_rois ! 0 = MyInk"
proof -
  have h1: "(0::nat) < length (concat example_rois)" by (simp add: example_rois_length)
  have h2: "length (concat example_rois) \<le> 256" by (simp add: example_rois_length)
  from C2_hands_classification [OF h1 h2, of two_tone_patch]
  have "hands_grids two_tone_patch example_rois ! 0 = MyInk"
    by (simp add: Let_def example_rois_nth patch_ratios GRID_PIXEL_RATIO_def)
  with h1 h2 show ?thesis by (intro conjI)
qed

text \<open>
  C2 as stated (MySpecial whenever both an ink band and a special band exceed the
  threshold) fails on a cell whose ROI is half in the lighter special colour and half in
  the darker ink colour: a special band and an ink band both exceed the threshold, and
  the cell is MyInk.
\<close>

theorem C2_special_precedence_counterexample:
  "grid_ratios two_tone_patch (concat example_rois ! 0)
     MY_SPECIAL_LIGHTER_COLOR_HSV_LOWER_BOUND MY_SPECIAL_LIGHTER_COLOR_HSV_UPPER_BOUND
     > GRID_PIXEL_RATIO \<and>
   grid_ratios two_tone_patch (concat example_rois ! 0)
     MY_INK_DARKER_COLOR_HSV_LOWER_BOUND MY_INK_DARKER_COLOR_HSV_UPPER_BOUND
     > GRID_PIXEL_RATIO \<and>
   hands_grids two_tone_patch example_rois ! 0 \<noteq> MySpecial"
proof -
  have k: "(0::nat) < length (concat example_rois)" "length (concat example_rois) \<le> 256"
    by (simp_all add: example_rois_length)
  show ?thesis
    unfolding hands_grids_nth [OF k]
    by (simp add: example_rois_nth patch_ratios GRID_PIXEL_RATIO_def cell_class_def)
qed

lemma length_classify:
  assumes "length b = length a" "length c = length a" "length d = length a" "length a \<le> 256"
  shows "length (classify a b c d) = length a"
  using assms by (simp add: classify_def Let_def)

lemma hands_grids_map:
  assumes "length (concat grid_rois) \<le> 256"
  shows "hands_grids img grid_rois = map (cell_at img) (concat grid_rois)"
proof (rule nth_equalityI)
  show "length (hands_grids img grid_rois) = length (map (cell_at img) (concat grid_rois))"
    using assms unfolding hands_grids_def Let_def by (subst length_classify) simp_all
next
  fix k assume "k < length (hands_grids img grid_rois)"
  moreover have "length (hands_grids img grid_rois) = length (concat grid_rois)"
    using assms unfolding hands_grids_def Let_def by (subst length_classify) simp_all
  ultimately have k: "k < length (concat grid_rois)" by simp
  show "hands_grids img grid_rois ! k = map (cell_at img) (concat grid_rois) ! k"
    using hands_grids_nth [OF k assms] k by (simp add: cell_at_def)
qed

lemma concat_replicate_replicate: "concat (replicate m (replicate n x)) = replicate (m * n) x"
  by (induction m) (simp_all add: replicate_add)

lemma reshape_replicate:
  assumes "0 < n" shows "reshape n (replicate (m * n) x) = replicate m (replicate n x)"
proof -
  have "take n (drop (i * n) (replicate (m * n) x)) = replicate n x" if "i < m" for i
  proof -
    from that have "Suc i \<le> m" by simp
    then have "Suc i * n \<le> m * n" by (rule mult_le_mono1)
    then have "n \<le> m * n - i * n" by simp
    then show ?thesis by (simp add: min_def)
  qed
  then have "map (\<lambda>i. take n (drop (i * n) (replicate (m * n) x))) [0..<m] =
             map (\<lambda>i. replicate n x) [0..<m]"
    by (intro map_cong) simp_all
  then show ?thesis using assms by (simp add: reshape_def map_replicate_const)
qed

lemma band_roi_top:
  "map (\<lambda>row. take HANDS_GRID_ROI_WIDTH (drop (snd (0::nat, 0::nat)) row))
       (take HANDS_GRID_ROI_HEIGHT (drop (fst (0::nat, 0::nat)) two_band_frame)) =
   replicate 14 (replicate 14 (32, 200, 200))"
  by (simp add: HANDS_GRID_ROI_WIDTH_def HANDS_GRID_ROI_HEIGHT_def two_band_frame_def)

lemma band_roi_bottom:
  "map (\<lambda>row. take HANDS_GRID_ROI_WIDTH (drop (snd (14::nat, 0::nat)) row))
       (take HANDS_GRID_ROI_HEIGHT (drop (fst (14::nat, 0::nat)) two_band_frame)) =
   replicate 14 (replicate 14 (22, 200, 200))"
  by (simp add: HANDS_GRID_ROI_WIDTH_def HANDS_GRID_ROI_HEIGHT_def two_band_frame_def)

lemmas band_bounds =
  MY_INK_LIGHTER_COLOR_HSV_LOWER_BOUND_def MY_INK_LIGHTER_COLOR_HSV_UPPER_BOUND_def
  MY_SPECIAL_LIGHTER_COLOR_HSV_LOWER_BOUND_def MY_SPECIAL_LIGHTER_COLOR_HSV_UPPER_BOUND_def
  MY_INK_DARKER_COLOR_HSV_LOWER_BOUND_def MY_INK_DARKER_COLOR_HSV_UPPER_BOUND_def
  MY_SPECIAL_DARKER_COLOR_HSV_LOWER_BOUND_def MY_SPECIAL_DARKER_COLOR_HSV_UPPER_BOUND_def

lemma band_ratios_top:
  "grid_ratios two_band_frame (0, 0)
     MY_INK_LIGHTER_COLOR_HSV_LOWER_BOUND MY_INK_LIGHTER_COLOR_HSV_UPPER_BOUND = 1"
  "grid_ratios two_band_frame (0, 0)
     MY_SPECIAL_LIGHTER_COLOR_HSV_LOWER_BOUND MY_SPECIAL_LIGHTER_COLOR_HSV_UPPER_BOUND = 0"
  "grid_ratios two_band_frame (0, 0)
     MY_INK_DARKER_COLOR_HSV_LOWER_BOUND MY_INK_DARKER_COLOR_HSV_UPPER_BOUND = 0"
  "grid_ratios two_band_frame (0, 0)
     MY_SPECIAL_DARKER_COLOR_HSV_LOWER_BOUND MY_SPECIAL_DARKER_COLOR_HSV_UPPER_BOUND = 0"
  unfolding grid_ratios_def Let_def band_roi_top count_block
  by (simp_all add: in_range_def HANDS_GRID_ROI_WIDTH_def HANDS_GRID_ROI_HEIGHT_def band_bounds)

lemma band_ratios_bottom:
  "grid_ratios two_band_frame (14, 0)
     MY_INK_LIGHTER_COLOR_HSV_LOWER_BOUND MY_INK_LIGHTER_COLOR_HSV_UPPER_BOUND = 0"
  "grid_ratios two_band_frame (14, 0)
     MY_SPECIAL_LIGHTER_COLOR_HSV_LOWER_BOUND MY_SPECIAL_LIGHTER_COLOR_HSV_UPPER_BOUND = 1"
  "grid_ratios two_band_frame (14, 0)
     MY_INK_DARKER_COLOR_HSV_LOWER_BOUND MY_INK_DARKER_COLOR_HSV_UPPER_BOUND = 0"
  "grid_ratios two_band_frame (14, 0)
     MY_SPECIAL_DARKER_COLOR_HSV_LOWER_BOUND MY_SPECIAL_DARKER_COLOR_HSV_UPPER_BOUND = 0"
  unfolding grid_ratios_def Let_def band_roi_bottom count_block
  by (simp_all add: in_range_def HANDS_GRID_ROI_WIDTH_def HANDS_GRID_ROI_HEIGHT_def band_bounds)

lemma band_cells:
  "cell_at two_band_frame (0, 0) = MyInk" "cell_at two_band_frame (14, 0) = MySpecial"
  by (simp_all add: cell_at_def band_ratios_top band_ratios_bottom cell_class_def GRID_PIXEL_RATIO_def)

lemma band_grids_normal:
  "map (reshape 8) (reshape 64 (hands_grids two_band_frame (replicate 4 (replicate 64 (0, 0))))) =
   replicate 4 (replicate 8 (replicate 8 MyInk))"
proof -
  have "hands_grids two_band_frame (replicate 4 (replicate 64 (0, 0))) = replicate (4 * 64) MyInk"
    by (subst hands_grids_map) (simp_all add: concat_replicate_replicate band_cells)
  moreover have "reshape 8 (replicate 64 MyInk) = replicate 8 (replicate 8 MyInk)"
    using reshape_replicate [of 8 8 MyInk] by simp
  ultimately show ?thesis using reshape_replicate [of 64 4 MyInk] by simp
qed

lemma band_costs_normal:
  "hands_costs two_band_frame (replicate 4 (replicate 6 (0, 0))) = replicate 4 0"
proof -
  have "reshape 6 (replicate 24 (0::rat)) = replicate 4 (replicate 6 0)"
    using reshape_replicate [of 6 4 "0::rat"] by simp
  then show ?thesis
    by (simp add: hands_costs_def Let_def concat_replicate_replicate band_ratios_top
        zip_replicate GRID_PIXEL_RATIO_def)
qed

lemma select_rois_out:
  "c < 0 \<or> 4 \<le> c \<Longrightarrow>
   select_rois L c = (HANDS_GRID_NUMPY_ROI_TOP_LEFTS L, HANDS_COST_NUMPY_ROI_TOP_LEFTS L)"
  by (auto simp: select_rois_def Let_def)

lemma hands_out:
  assumes "c < 0 \<or> 4 \<le> c"
  shows "hands L hands_cursor img (Some c) =
     build_cards (zip (map (reshape 8) (reshape 64 (hands_grids img (HANDS_GRID_NUMPY_ROI_TOP_LEFTS L))))
                      (hands_costs img (HANDS_COST_NUMPY_ROI_TOP_LEFTS L)))"
  unfolding hands_def by (simp only: option.case Let_def select_rois_out [OF assms] prod.case)

lemma ink_cards:
  "map_sum id (map (\<lambda>c. (card_sp_cost c, pattern_grid (get_pattern c 0), card_size c)))
     (snd (build_cards (replicate 4 (replicate 8 (replicate 8 MyInk), 0)))) =
   Inr (replicate 4 (0, replicate 8 (replicate 8 MyInk), 64))"
  by code_simp

text \<open>
  C10. For an explicitly passed cursor value outside 0..3 (such as the sentinel -1), the
  tables in use are the normal ones for all four slots: the detector returns the Cards
  built from the cells and cost pips sampled at the normal ROIs, every cell being the
  class of the frame at its normal ROI, and no focused table is read. The result is the
  same for any two such cursor values.
\<close>

theorem C10_out_of_range_cursor:
  assumes "cursor < 0 \<or> 4 \<le> cursor"
  shows "select_rois L cursor =
           (HANDS_GRID_NUMPY_ROI_TOP_LEFTS L, HANDS_COST_NUMPY_ROI_TOP_LEFTS L) \<and>
         hands L hands_cursor img (Some cursor) =
           build_cards
             (zip (map (reshape 8) (reshape 64 (hands_grids img (HANDS_GRID_NUMPY_ROI_TOP_LEFTS L))))
                  (hands_costs img (HANDS_COST_NUMPY_ROI_TOP_LEFTS L))) \<and>
         (length (concat (HANDS_GRID_NUMPY_ROI_TOP_LEFTS L)) \<le> 256 \<longrightarrow>
            hands_grids img (fst (select_rois L cursor)) =
              map (cell_at img) (concat (HANDS_GRID_NUMPY_ROI_TOP_LEFTS L))) \<and>
         (cursor' < 0 \<or> 4 \<le> cursor' \<longrightarrow>
            hands L hands_cursor img (Some cursor) = hands L hands_cursor img (Some cursor'))"
proof (intro conjI impI)
  show "select_rois L cursor =
           (HANDS_GRID_NUMPY_ROI_TOP_LEFTS L, HANDS_COST_NUMPY_ROI_TOP_LEFTS L)"
    using assms by (rule select_rois_out)
  show "hands L hands_cursor img (Some cursor) =
           build_cards
             (zip (map (reshape 8) (reshape 64 (hands_grids img (HANDS_GRID_NUMPY_ROI_TOP_LEFTS L))))
                  (hands_costs img (HANDS_COST_NUMPY_ROI_TOP_LEFTS L)))"
    using assms by (rule hands_out)
  show "hands_grids img (fst (select_rois L cursor)) =
              map (cell_at img) (concat (HANDS_GRID_NUMPY_ROI_TOP_LEFTS L))"
    if "length (concat (HANDS_GRID_NUMPY_ROI_TOP_LEFTS L)) \<le> 256"
    using hands_grids_map [OF that] by (simp add: select_rois_out [OF assms])
  show "hands L hands_cursor img (Some cursor) = hands L hands_cursor img (Some cursor')"
    if "cursor' < 0 \<or> 4 \<le> cursor'"
    by (simp only: hands_out [OF assms] hands_out [OF that])
qed

theorem C10_out_of_range_cursor_witness:
  "((-1::int) < 0 \<or> (4::int) \<le> -1) \<and> ((7::int) < 0 \<or> (4::int) \<le> 7) \<and>
   length (concat (HANDS_GRID_NUMPY_ROI_TOP_LEFTS focus_layout)) \<le> 256 \<and>
   select_rois focus_layout (-1) =
     (replicate 4 (replicate 64 (0, 0)), replicate 4 (replicate 6 (0, 0))) \<and>
   hands focus_layout (\<lambda>img. 0) two_band_frame (Some (-1)) =
     build_cards (replicate 4 (replicate 8 (replicate 8 MyInk), 0)) \<and>
   map_sum id (map (\<lambda>c. (card_sp_cost c, pattern_grid (get_pattern c 0), card_size c)))
     (snd (hands focus_layout (\<lambda>img. 0) two_band_frame (Some (-1)))) =
     Inr (replicate 4 (0, replicate 8 (replicate 8 MyInk), 64)) \<and>
   hands focus_layout (\<lambda>img. 0) two_band_frame (Some (-1)) =
     hands focus_layout (\<lambda>img. 0) two_band_frame (Some 7) \<and>
   hands_grids two_band_frame (fst (select_rois focus_layout (-1))) = replicate 256 MyInk \<and>
   hands_grids two_band_frame (FOCUS_GRID_NUMPY_ROI_TOP_LEFTS focus_layout) =
     replicate 256 MySpecial"
proof -
  have h: "(-1::int) < 0 \<or> (4::int) \<le> -1" by simp
  have h7: "(7::int) < 0 \<or> (4::int) \<le> 7" by simp
  have len: "length (concat (HANDS_GRID_NUMPY_ROI_TOP_LEFTS focus_layout)) \<le> 256"
    by (simp add: focus_layout_def concat_replicate_replicate)
  note c10 = C10_out_of_range_cursor [OF h, of focus_layout "\<lambda>img. 0" two_band_frame 7]
  from c10 have sel: "select_rois focus_layout (-1) =
     (replicate 4 (replicate 64 (0, 0)), replicate 4 (replicate 6 (0, 0)))"
    by (simp add: focus_layout_def)
  from c10 have run: "hands focus_layout (\<lambda>img. 0) two_band_frame (Some (-1)) =
     build_cards (replicate 4 (replicate 8 (replicate 8 MyInk), 0))"
    by (simp add: focus_layout_def band_grids_normal band_costs_normal zip_replicate)
  from c10 h7 have same: "hands focus_layout (\<lambda>img. 0) two_band_frame (Some (-1)) =
     hands focus_layout (\<lambda>img. 0) two_band_frame (Some 7)" by blast
  from c10 len have "hands_grids two_band_frame (fst (select_rois focus_layout (-1))) =
     map (cell_at two_band_frame) (concat (HANDS_GRID_NUMPY_ROI_TOP_LEFTS focus_layout))" by blast
  then have cells: "hands_grids two_band_frame (fst (select_rois focus_layout (-1))) =
     replicate 256 MyInk"
    by (simp add: focus_layout_def concat_replicate_replicate band_cells)
  have focus: "hands_grids two_band_frame (FOCUS_GRID_NUMPY_ROI_TOP_LEFTS focus_layout) =
     replicate 256 MySpecial"
    by (subst hands_grids_map)
       (simp_all add: focus_layout_def concat_replicate_replicate band_cells)
  have cards: "map_sum id (map (\<lambda>c. (card_sp_cost c, pattern_grid (get_pattern c 0), card_size c)))
     (snd (hands focus_layout (\<lambda>img. 0) two_band_frame (Some (-1)))) =
     Inr (replicate 4 (0, replicate 8 (replicate 8 MyInk), 64))"
    unfolding run by (rule ink_cards)
  from h h7 len sel run cards same cells focus show ?thesis by (intro conjI)
qed

end
